theory Spec2Isabelle
  imports Complex_Main "HOL-Library.Sublist"
begin

section \<open>Heerlen interactive map: geofencing and proximity core of \<open>src/app.js\<close>\<close>

text \<open>
  JavaScript numbers are idealised as the mathematical reals: \<open>Math.sin\<close>, \<open>Math.cos\<close>,
  \<open>Math.sqrt\<close> and \<open>Math.atan2\<close> are the exact functions, with no rounding, no NaN and
  no infinities. A coordinate array \<open>[lng, lat]\<close> is a pair, so \<open>position[0]\<close> is
  \<open>fst\<close> and \<open>position[1]\<close> is \<open>snd\<close>. The map view, the DOM and the geolocate
  control are outside the program: what a handler asks of them is returned as a list of
  commands, what it reads from them is an argument, and the events they deliver are the
  inputs of the model. The one call into the control that is followed into it is
  \<open>geolocateControl.trigger()\<close>, since the control answers it by running a listener of
  this program before it returns.
\<close>

subsection \<open>Configuration\<close>

type_synonym lnglat = "real \<times> real"

definition CONFIG_MAP_center :: lnglat where
  "CONFIG_MAP_center = (5.979642, 50.887634)"

definition CONFIG_MAP_boundary_center :: lnglat where
  "CONFIG_MAP_boundary_center = (5.977105864037915, 50.88774161029858)"

definition CONFIG_MAP_boundary_radius :: real where
  "CONFIG_MAP_boundary_radius = 2.2"

subsection \<open>Great-circle distance\<close>

definition toRad :: "real \<Rightarrow> real" where
  "toRad deg = deg * (pi / 180)"

text \<open>\<open>Math.atan2(y, x)\<close> on finite arguments, quadrant by quadrant.\<close>

definition atan2 :: "real \<Rightarrow> real \<Rightarrow> real" where
  "atan2 y x =
     (if 0 < x then arctan (y / x)
      else if x < 0 then (if 0 \<le> y then arctan (y / x) + pi else arctan (y / x) - pi)
      else if 0 < y then pi / 2
      else if y < 0 then - (pi / 2)
      else 0)"

text \<open>The local \<open>a\<close> of \<open>calculateDistance\<close>.\<close>

definition haversine_a :: "real \<Rightarrow> real \<Rightarrow> real \<Rightarrow> real \<Rightarrow> real" where
  "haversine_a lat1 lon1 lat2 lon2 =
     (let dLat = toRad (lat2 - lat1);
          dLon = toRad (lon2 - lon1)
      in sin (dLat / 2) * sin (dLat / 2) +
         cos (toRad lat1) * cos (toRad lat2) *
         sin (dLon / 2) * sin (dLon / 2))"

text \<open>
  \<open>GeolocationManager.calculateDistance\<close> and the global \<open>calculateDistance\<close> used by the
  drift guard have the same body; one definition stands for both.
\<close>

definition calculateDistance :: "real \<Rightarrow> real \<Rightarrow> real \<Rightarrow> real \<Rightarrow> real" where
  "calculateDistance lat1 lon1 lat2 lon2 =
     (let a = haversine_a lat1 lon1 lat2 lon2;
          c = 2 * atan2 (sqrt a) (sqrt (1 - a))
      in 6371 * c)"

subsection \<open>Features and CMS records\<close>

text \<open>
  A GeoJSON feature of \<open>mapLocations.features\<close>. \<open>prop_id\<close> is \<open>properties.id\<close>, which is
  \<open>undefined\<close> (\<open>None\<close>) on the features built by \<open>getARData\<close>. The remaining display
  properties are kept as an ordered list of key and value.
\<close>

record feature =
  coordinates :: lnglat
  prop_id :: "string option"
  arrayID :: nat
  display :: "(string \<times> string) list"

record location_record =
  locationID :: string
  locationLat :: real
  locationLong :: real
  locationDisplay :: "(string \<times> string) list"

record ar_record =
  latitude_ar :: real
  longitude_ar :: real
  arDisplay :: "(string \<times> string) list"

definition location_feature :: "nat \<Rightarrow> location_record \<Rightarrow> feature" where
  "location_feature index locationData =
     \<lparr>coordinates = (locationLong locationData, locationLat locationData),
      prop_id = Some (locationID locationData),
      arrayID = index,
      display = locationDisplay locationData\<rparr>"

definition ar_feature :: "nat \<Rightarrow> ar_record \<Rightarrow> feature" where
  "ar_feature index arData =
     \<lparr>coordinates = (longitude_ar arData, latitude_ar arData),
      prop_id = None,
      arrayID = index,
      display = (''type'', ''ar'') # (''color'', ''black'') # arDisplay arData\<rparr>"

text \<open>The \<open>forEach((element, index) => ...)\<close> loops of \<open>getGeoData\<close> and \<open>getARData\<close>.\<close>

fun getGeoData_loop :: "nat \<Rightarrow> location_record list \<Rightarrow> feature list \<Rightarrow> feature list" where
  "getGeoData_loop index [] features = features"
| "getGeoData_loop index (element # rest) features =
     getGeoData_loop (Suc index) rest
       (if \<not> list_ex (\<lambda>feat. prop_id feat = Some (locationID element)) features
        then features @ [location_feature index element]
        else features)"

definition getGeoData :: "location_record list \<Rightarrow> feature list \<Rightarrow> feature list" where
  "getGeoData childNodes features = getGeoData_loop 0 childNodes features"

fun getARData_loop :: "nat \<Rightarrow> ar_record list \<Rightarrow> feature list \<Rightarrow> feature list" where
  "getARData_loop index [] features = features"
| "getARData_loop index (element # rest) features =
     getARData_loop (Suc index) rest (features @ [ar_feature index element])"

definition getARData :: "ar_record list \<Rightarrow> feature list \<Rightarrow> feature list" where
  "getARData childNodes features = getARData_loop 0 childNodes features"

text \<open>The two calls under \<open>// Load data\<close>, starting from the empty collection.\<close>

definition loadData :: "location_record list \<Rightarrow> ar_record list \<Rightarrow> feature list" where
  "loadData locationList arList = getARData arList (getGeoData locationList [])"

subsection \<open>Markers, commands and the state\<close>

text \<open>
  A distance marker: where it is placed, the rounded distance its label shows, and the
  feature its click handler fires.
\<close>

record marker =
  lngLat :: lnglat
  label :: int
  target :: feature

datatype command =
    SetSearchRadius "lnglat option list"
  | ClearSearchRadius
  | FlyToUser lnglat real
  | EaseToUser lnglat
  | EaseBearing real
  | ResetOrientation
  | ShowBoundaryPopup
  | ShowBoundaryLayers
  | ConsoleLog string
  | ConsoleError
  | ShowNotification string
  | CreateOverlay
  | FlyToDefault lnglat
  | FadeOverlay

text \<open>
  The fields of \<open>GeolocationManager\<close>, the global \<open>mapLocations.features\<close>, and the markers
  attached to the map. A \<open>mapboxgl.Marker\<close> object is a handle (a number, fresh at each
  \<open>new\<close>) with its content, which never changes after creation. \<open>mapMarkers\<close> lists
  the markers now on the map, \<open>distanceMarkers\<close> the ones the manager keeps.
\<close>

record world =
  radiusInMeters :: real
  distanceMarkers :: "(nat \<times> marker) list"
  isPopupOpen :: bool
  centerPoint :: lnglat
  boundaryRadius :: real
  isFirstLocation :: bool
  isTracking :: bool
  mapLocations_features :: "feature list"
  mapMarkers :: "(nat \<times> marker) list"
  nextMarker :: nat

text \<open>The constructor with \<open>setupGeolocateControl\<close>, before any data is loaded.\<close>

definition initial_world :: world where
  "initial_world =
     \<lparr>radiusInMeters = 25,
      distanceMarkers = [],
      isPopupOpen = False,
      centerPoint = CONFIG_MAP_boundary_center,
      boundaryRadius = CONFIG_MAP_boundary_radius,
      isFirstLocation = True,
      isTracking = False,
      mapLocations_features = [],
      mapMarkers = [],
      nextMarker = 0\<rparr>"

text \<open>
  The six states of the geolocate control when it tracks the user
  (\<open>trackUserLocation: true\<close>, as \<open>setupGeolocateControl\<close> builds it). The control fires
  \<open>geolocate\<close> in the state \<open>ACTIVE_LOCK\<close>, where the camera follows the user, or in
  \<open>BACKGROUND\<close>, after the user has moved the map.
\<close>

datatype watch_state =
    OFF
  | WAITING_ACTIVE
  | ACTIVE_LOCK
  | ACTIVE_ERROR
  | BACKGROUND
  | BACKGROUND_ERROR

text \<open>What a handler reads from the map view and from the control when it runs.\<close>

record env =
  mapCenter :: lnglat
  hasSearchRadiusSource :: bool
  watchState :: watch_state

record coords =
  longitude :: real
  latitude :: real
  heading :: "real option"

text \<open>\<open>position.coords.heading || 0\<close>: a missing heading counts as 0.\<close>

definition headingOrZero :: "coords \<Rightarrow> real" where
  "headingOrZero c = (case heading c of None \<Rightarrow> 0 | Some h \<Rightarrow> h)"

subsection \<open>Boundary and circles\<close>

definition isWithinBoundary :: "world \<Rightarrow> lnglat \<Rightarrow> bool" where
  "isWithinBoundary w position =
     (calculateDistance (snd position) (fst position)
        (snd (centerPoint w)) (fst (centerPoint w)) \<le> boundaryRadius w)"

definition circlePoint :: "lnglat \<Rightarrow> real \<Rightarrow> real \<Rightarrow> real \<Rightarrow> lnglat" where
  "circlePoint center degreesLongPerKm degreesLatPerKm angle =
     (let dx = degreesLongPerKm * cos angle;
          dy = degreesLatPerKm * sin angle
      in (fst center + dx, snd center + dy))"

text \<open>
  \<open>generateCircle\<close> inside \<open>updateSearchRadius\<close>. The closing \<open>points.push(points[0])\<close>
  pushes \<open>undefined\<close> when no point was generated, so the ring is a list of optional
  points. At a latitude of exactly 90 degrees the divisor of \<open>degreesLongPerKm\<close> is 0 over
  the reals, where the division of HOL gives 0; the theorems on circles use the number
  and the order of the points only, never the value of that quotient.
\<close>

definition generateCircle :: "lnglat \<Rightarrow> real \<Rightarrow> nat \<Rightarrow> lnglat option list" where
  "generateCircle center radiusInM pointCount =
     (let radiusKm = radiusInM / 1000;
          degreesLongPerKm = radiusKm / (111.32 * cos (snd center * pi / 180));
          degreesLatPerKm = radiusKm / 110.574;
          points = map (\<lambda>i. circlePoint center degreesLongPerKm degreesLatPerKm
                              ((real i / real pointCount) * (2 * pi)))
                       [0..<pointCount]
      in map Some points @ [case points of [] \<Rightarrow> None | p # _ \<Rightarrow> Some p])"

text \<open>The \<open>pointCount = 64\<close> default, as \<open>updateSearchRadius\<close> calls it.\<close>

definition searchRadiusCircle :: "world \<Rightarrow> lnglat \<Rightarrow> lnglat option list" where
  "searchRadiusCircle w center = generateCircle center (radiusInMeters w) 64"

text \<open>The ring of \<open>createBoundaryCircle\<close>: \<open>for (let i = 0; i <= 64; i++)\<close>.\<close>

definition createBoundaryCircle :: "world \<Rightarrow> lnglat list" where
  "createBoundaryCircle w =
     (let radiusKm = boundaryRadius w;
          degreesLongPerKm = radiusKm / (111.32 * cos (snd (centerPoint w) * pi / 180));
          degreesLatPerKm = radiusKm / 110.574
      in map (\<lambda>i. circlePoint (centerPoint w) degreesLongPerKm degreesLatPerKm
                     ((real i / 64) * (2 * pi)))
             [0..<65])"

definition updateSearchRadius :: "env \<Rightarrow> world \<Rightarrow> lnglat \<Rightarrow> command list" where
  "updateSearchRadius e w center =
     (if \<not> hasSearchRadiusSource e then []
      else [SetSearchRadius (searchRadiusCircle w center)])"

definition clearSearchRadius :: "env \<Rightarrow> command list" where
  "clearSearchRadius e = (if hasSearchRadiusSource e then [ClearSearchRadius] else [])"

subsection \<open>Distance markers\<close>

text \<open>\<open>marker.remove()\<close>: the marker with this handle leaves the map.\<close>

definition removeMarker :: "nat \<Rightarrow> (nat \<times> marker) list \<Rightarrow> (nat \<times> marker) list" where
  "removeMarker h ms = filter (\<lambda>km. fst km \<noteq> h) ms"

text \<open>
  \<open>this.distanceMarkers.forEach(marker => marker.remove()); this.distanceMarkers = []\<close>.
  The field is an array from the constructor on, so the guard around it is always taken.
\<close>

definition clearDistanceMarkers :: "world \<Rightarrow> world" where
  "clearDistanceMarkers w =
     w\<lparr>mapMarkers := fold (\<lambda>marker. removeMarker (fst marker)) (distanceMarkers w) (mapMarkers w),
       distanceMarkers := []\<rparr>"

definition featureDistance :: "lnglat \<Rightarrow> feature \<Rightarrow> real" where
  "featureDistance userPosition feature =
     1000 * calculateDistance (snd userPosition) (fst userPosition)
              (snd (coordinates feature)) (fst (coordinates feature))"

definition distanceMarker :: "lnglat \<Rightarrow> feature \<Rightarrow> marker" where
  "distanceMarker userPosition feature =
     \<lparr>lngLat = coordinates feature,
      label = round (featureDistance userPosition feature),
      target = feature\<rparr>"

text \<open>The second \<open>forEach\<close> of \<open>updateDistanceMarkers\<close>, over \<open>mapLocations.features\<close>.\<close>

fun addDistanceMarkers :: "lnglat \<Rightarrow> feature list \<Rightarrow> world \<Rightarrow> world" where
  "addDistanceMarkers userPosition [] w = w"
| "addDistanceMarkers userPosition (feature # rest) w =
     addDistanceMarkers userPosition rest
       (if featureDistance userPosition feature \<le> radiusInMeters w
        then w\<lparr>mapMarkers := mapMarkers w @ [(nextMarker w, distanceMarker userPosition feature)],
               distanceMarkers :=
                 distanceMarkers w @ [(nextMarker w, distanceMarker userPosition feature)],
               nextMarker := Suc (nextMarker w)\<rparr>
        else w)"

definition updateDistanceMarkers :: "world \<Rightarrow> lnglat \<Rightarrow> world" where
  "updateDistanceMarkers w userPosition =
     addDistanceMarkers userPosition (mapLocations_features w) (clearDistanceMarkers w)"

text \<open>
  The proximity query in the words of the specification: the features whose distance in
  metres is at most the radius, in the order of the input.
\<close>

definition findWithin :: "lnglat \<Rightarrow> feature list \<Rightarrow> real \<Rightarrow> feature list" where
  "findWithin userPosition features radiusMeters =
     filter (\<lambda>f. calculateDistance (snd userPosition) (fst userPosition)
                    (snd (coordinates f)) (fst (coordinates f)) * 1000 \<le> radiusMeters)
            features"

text \<open>The markers the map shows.\<close>

definition renderedMarkers :: "world \<Rightarrow> marker list" where
  "renderedMarkers w = map snd (mapMarkers w)"

text \<open>
  Handles are fresh and every marker on the map is one the manager holds: true of
  \<open>initial_world\<close> and kept by every handler.
\<close>

definition markers_ok :: "world \<Rightarrow> bool" where
  "markers_ok w =
     (mapMarkers w = distanceMarkers w \<and>
      list_all (\<lambda>marker. fst marker < nextMarker w) (distanceMarkers w))"

subsection \<open>Event handlers\<close>

definition userPositionOf :: "coords \<Rightarrow> lnglat" where
  "userPositionOf c = (longitude c, latitude c)"

definition on_trackuserlocationstart :: "world \<Rightarrow> world \<times> command list" where
  "on_trackuserlocationstart w =
     (w\<lparr>isTracking := True\<rparr>, [ConsoleLog ''Location tracking started'', ShowBoundaryLayers])"

definition on_trackuserlocationend :: "env \<Rightarrow> world \<Rightarrow> world \<times> command list" where
  "on_trackuserlocationend e w =
     (clearDistanceMarkers (w\<lparr>isTracking := False, isFirstLocation := True\<rparr>),
      [ConsoleLog ''Location tracking ended'', ResetOrientation] @ clearSearchRadius e)"

text \<open>
  \<open>geolocateControl.trigger()\<close>, as far as this program sees it. The method belongs to the
  map library and toggles the control: switched off, it starts tracking and fires
  \<open>trackuserlocationstart\<close>; tracking (waiting, locked on the user, or in error), it
  switches off and fires \<open>trackuserlocationend\<close>; in the background, it locks on the user
  again and fires \<open>trackuserlocationstart\<close>. The listener of the fired event, registered
  in \<open>setupGeolocateControl\<close>, has run when \<open>trigger\<close> returns.
\<close>

definition trigger :: "env \<Rightarrow> world \<Rightarrow> world \<times> command list" where
  "trigger e w =
     (case watchState e of
        OFF \<Rightarrow> on_trackuserlocationstart w
      | WAITING_ACTIVE \<Rightarrow> on_trackuserlocationend e w
      | ACTIVE_LOCK \<Rightarrow> on_trackuserlocationend e w
      | ACTIVE_ERROR \<Rightarrow> on_trackuserlocationend e w
      | BACKGROUND \<Rightarrow> on_trackuserlocationstart w
      | BACKGROUND_ERROR \<Rightarrow> on_trackuserlocationend e w)"

definition handleUserLocation :: "env \<Rightarrow> world \<Rightarrow> coords \<Rightarrow> world \<times> command list" where
  "handleUserLocation e w position =
     (let userPosition = userPositionOf position in
      if isWithinBoundary w userPosition then
        (let cmds = updateSearchRadius e w userPosition;
             w1 = updateDistanceMarkers w userPosition
         in if \<not> isPopupOpen w1 then
              (if isFirstLocation w1 then
                 (w1\<lparr>isFirstLocation := False\<rparr>,
                  cmds @ [FlyToUser userPosition (headingOrZero position)])
               else
                 (let distanceChange =
                        calculateDistance (snd (mapCenter e)) (fst (mapCenter e))
                          (snd userPosition) (fst userPosition)
                  in if distanceChange > 0.05
                     then (w1, cmds @ [EaseToUser userPosition])
                     else (w1, cmds)))
            else (w1, cmds))
      else
        (let (w1, cmds) = trigger e w
         in (w1, cmds @ [ShowBoundaryPopup])))"

definition on_trackuserlocationupdate :: "world \<Rightarrow> coords \<Rightarrow> world \<times> command list" where
  "on_trackuserlocationupdate w position =
     (if \<not> isPopupOpen w \<and> isTracking w
      then (w, [EaseBearing (headingOrZero position)])
      else (w, []))"

definition errorMessages_default :: string where
  "errorMessages_default = ''Er is een fout opgetreden bij het ophalen van je locatie.''"

text \<open>
  The object literal \<open>errorMessages\<close> read at \<open>error.code\<close>; a code that is no number
  (\<open>undefined\<close>) is \<open>None\<close>.
\<close>

definition errorMessages :: "int option \<Rightarrow> string option" where
  "errorMessages code =
     (if code = Some 1 then Some ''Locatie toegang geweigerd. Schakel het in bij je instellingen.''
      else if code = Some 2 then Some ''Locatie niet beschikbaar. Controleer je apparaat instellingen.''
      else if code = Some 3 then Some ''Verzoek verlopen. Probeer opnieuw.''
      else None)"

definition errorNotice :: "int option \<Rightarrow> string" where
  "errorNotice code =
     (case errorMessages code of Some m \<Rightarrow> m | None \<Rightarrow> errorMessages_default)"

definition handleGeolocationError :: "world \<Rightarrow> int option \<Rightarrow> world \<times> command list" where
  "handleGeolocationError w code = (w, [ConsoleError, ShowNotification (errorNotice code)])"

text \<open>The events of the geolocate control and of the popup, and their dispatch.\<close>

datatype event =
    Geolocate env coords
  | TrackUserLocationUpdate coords
  | TrackUserLocationStart
  | TrackUserLocationEnd env
  | GeolocationError "int option"
  | PopupOpened
  | PopupClosed

fun dispatch :: "world \<Rightarrow> event \<Rightarrow> world \<times> command list" where
  "dispatch w (Geolocate e position) = handleUserLocation e w position"
| "dispatch w (TrackUserLocationUpdate position) = on_trackuserlocationupdate w position"
| "dispatch w TrackUserLocationStart = on_trackuserlocationstart w"
| "dispatch w (TrackUserLocationEnd e) = on_trackuserlocationend e w"
| "dispatch w (GeolocationError code) = handleGeolocationError w code"
| "dispatch w PopupOpened = (w\<lparr>isPopupOpen := True\<rparr>, [])"
| "dispatch w PopupClosed = (w\<lparr>isPopupOpen := False\<rparr>, [])"

fun run :: "world \<Rightarrow> event list \<Rightarrow> world \<times> command list" where
  "run w [] = (w, [])"
| "run w (ev # evs) =
     (let (w1, c1) = dispatch w ev;
          (w2, c2) = run w1 evs
      in (w2, c1 @ c2))"

subsection \<open>Drift guard\<close>

definition driftCorrection :: "command list" where
  "driftCorrection = [CreateOverlay, FlyToDefault CONFIG_MAP_center, FadeOverlay]"

text \<open>The \<open>moveend\<close> handler; \<open>isEasing\<close> is what \<open>map.isEasing()\<close> answers.\<close>

definition on_moveend :: "bool \<Rightarrow> lnglat \<Rightarrow> command list" where
  "on_moveend isEasing currentCenter =
     (if isEasing then []
      else
        (let boundaryCenter = CONFIG_MAP_boundary_center;
             distance = calculateDistance (snd currentCenter) (fst currentCenter)
                          (snd boundaryCenter) (fst boundaryCenter)
         in if distance > 1 then driftCorrection else []))"

subsection \<open>Reading the commands\<close>

fun isFlyToUser :: "command \<Rightarrow> bool" where
  "isFlyToUser (FlyToUser center bearing) = True"
| "isFlyToUser c = False"

fun isEaseToUser :: "command \<Rightarrow> bool" where
  "isEaseToUser (EaseToUser center) = True"
| "isEaseToUser c = False"

text \<open>The camera moves towards the user that a handler asked for, in order.\<close>

definition toUserCommands :: "command list \<Rightarrow> command list" where
  "toUserCommands cmds = filter (\<lambda>c. isFlyToUser c \<or> isEaseToUser c) cmds"


subsection \<open>A small town\<close>

text \<open>
  Two features, one at the boundary centre and one a degree of latitude north of it, and
  a user walking north from the centre in steps of 0.00025 degrees (about 28 m) while the
  camera rests at the centre and the control is locked on the user. A session starts with
  the control's \<open>trackuserlocationstart\<close> and a first fix inside the boundary; the user
  then leaves for a place a degree north and starts tracking again, without ever stopping
  it.
\<close>

definition centre_feature :: feature where
  "centre_feature =
     \<lparr>coordinates = CONFIG_MAP_boundary_center, prop_id = Some ''centrum'',
      arrayID = 0, display = []\<rparr>"

definition north_feature :: feature where
  "north_feature =
     \<lparr>coordinates = (fst CONFIG_MAP_boundary_center, snd CONFIG_MAP_boundary_center + 1),
      prop_id = Some ''noord'', arrayID = 1, display = []\<rparr>"

definition town :: world where
  "town = initial_world\<lparr>mapLocations_features := [centre_feature, north_feature]\<rparr>"

definition tracking_town :: world where
  "tracking_town = town\<lparr>isFirstLocation := False, isTracking := True\<rparr>"

definition fix_north :: "real \<Rightarrow> coords" where
  "fix_north d =
     \<lparr>longitude = fst CONFIG_MAP_boundary_center,
      latitude = snd CONFIG_MAP_boundary_center + d,
      heading = None\<rparr>"

definition camera_at_centre :: env where
  "camera_at_centre =
     \<lparr>mapCenter = CONFIG_MAP_boundary_center, hasSearchRadiusSource = True,
      watchState = ACTIVE_LOCK\<rparr>"



subsection \<open>Facts about the distance\<close>

lemma cos_prod_double:
  "cos (2 * p) * cos (2 * q) = (cos (p + q))\<^sup>2 - (sin (q - p))\<^sup>2" for p q :: real
proof -
  have p: "cos (2 * p) = cos p * cos p - sin p * sin p"
    by (simp add: cos_double power2_eq_square)
  have q: "cos (2 * q) = cos q * cos q - sin q * sin q"
    by (simp add: cos_double power2_eq_square)
  show ?thesis
    unfolding p q cos_add sin_diff power2_eq_square
    by (simp add: algebra_simps)
qed

text \<open>
  The haversine term is a weighted mean of two squares, so it stays between 0 and 1 and
  both square roots of \<open>calculateDistance\<close> are taken of non-negative numbers.
\<close>

lemma haversine_a_alt:
  "haversine_a lat1 lon1 lat2 lon2 =
     (1 - (sin (toRad (lon2 - lon1) / 2))\<^sup>2) * (sin (toRad (lat2 - lat1) / 2))\<^sup>2
     + (sin (toRad (lon2 - lon1) / 2))\<^sup>2 * (cos ((toRad lat1 + toRad lat2) / 2))\<^sup>2"
proof -
  define p where "p = toRad lat1 / 2"
  define q where "q = toRad lat2 / 2"
  define s where "s = (sin (toRad (lon2 - lon1) / 2))\<^sup>2"
  have d: "toRad (lat2 - lat1) / 2 = q - p"
    by (simp add: p_def q_def toRad_def field_simps)
  have e: "(toRad lat1 + toRad lat2) / 2 = p + q"
    by (simp add: p_def q_def field_simps)
  have c: "cos (toRad lat1) * cos (toRad lat2) = (cos (p + q))\<^sup>2 - (sin (q - p))\<^sup>2"
    using cos_prod_double [of p q] by (simp add: p_def q_def)
  have "haversine_a lat1 lon1 lat2 lon2 =
          (sin (q - p))\<^sup>2 + (cos (toRad lat1) * cos (toRad lat2)) * s"
    by (simp add: haversine_a_def Let_def d s_def power2_eq_square)
  also have "\<dots> = (1 - s) * (sin (q - p))\<^sup>2 + s * (cos (p + q))\<^sup>2"
    unfolding c by (simp add: algebra_simps)
  finally show ?thesis
    by (simp add: s_def d e)
qed

lemma haversine_a_range:
  "0 \<le> haversine_a lat1 lon1 lat2 lon2 \<and> haversine_a lat1 lon1 lat2 lon2 \<le> 1"
proof -
  define s where "s = (sin (toRad (lon2 - lon1) / 2))\<^sup>2"
  define u where "u = (sin (toRad (lat2 - lat1) / 2))\<^sup>2"
  define v where "v = (cos ((toRad lat1 + toRad lat2) / 2))\<^sup>2"
  have s: "0 \<le> s" "s \<le> 1" by (simp_all add: s_def abs_square_le_1)
  have u: "0 \<le> u" "u \<le> 1" by (simp_all add: u_def abs_square_le_1)
  have v: "0 \<le> v" "v \<le> 1" by (simp_all add: v_def abs_square_le_1)
  have a: "haversine_a lat1 lon1 lat2 lon2 = (1 - s) * u + s * v"
    by (simp add: haversine_a_alt s_def u_def v_def)
  have lo: "0 \<le> (1 - s) * u + s * v"
    using s u v by (intro add_nonneg_nonneg mult_nonneg_nonneg) simp_all
  have "(1 - s) * u \<le> (1 - s) * 1" using s u by (intro mult_left_mono) simp_all
  moreover have "s * v \<le> s * 1" using s v by (intro mult_left_mono) simp_all
  ultimately have hi: "(1 - s) * u + s * v \<le> 1" by simp
  show ?thesis using lo hi a by simp
qed

lemma atan2_sin_cos:
  assumes "0 \<le> y" "y \<le> pi / 2"
  shows "atan2 (sin y) (cos y) = y"
proof (cases "y = pi / 2")
  case True
  show ?thesis unfolding True by (simp add: atan2_def)
next
  case False
  with assms have lt: "y < pi / 2" by simp
  have pos: "0 < cos y" using assms(1) lt by (intro cos_gt_zero_pi) simp_all
  have "arctan (tan y) = y" using assms(1) lt by (intro arctan_tan) simp_all
  then show ?thesis using pos by (simp add: atan2_def tan_def)
qed

text \<open>Along a meridian the distance is the arc: 6371 km times the angle.\<close>

lemma calculateDistance_meridian:
  assumes "\<bar>lat2 - lat1\<bar> \<le> 180"
  shows "calculateDistance lat1 lon lat2 lon = 6371 * \<bar>toRad (lat2 - lat1)\<bar>"
proof -
  define y where "y = \<bar>toRad (lat2 - lat1)\<bar> / 2"
  have y0: "0 \<le> y" by (simp add: y_def)
  have "\<bar>toRad (lat2 - lat1)\<bar> = \<bar>lat2 - lat1\<bar> * (pi / 180)"
    by (simp add: toRad_def abs_mult)
  also have "\<dots> \<le> 180 * (pi / 180)"
    using assms by (intro mult_right_mono) simp_all
  finally have y1: "y \<le> pi / 2" by (simp add: y_def)
  have a: "haversine_a lat1 lon lat2 lon = (sin y)\<^sup>2"
  proof -
    have "(sin (toRad (lat2 - lat1) / 2))\<^sup>2 = (sin y)\<^sup>2"
      unfolding y_def by (cases "0 \<le> toRad (lat2 - lat1)") simp_all
    then show ?thesis
      by (simp add: haversine_a_def Let_def toRad_def power2_eq_square)
  qed
  have sy: "0 \<le> sin y" using y0 y1 by (intro sin_ge_zero) simp_all
  have cy: "0 \<le> cos y" using y0 y1 by (intro cos_ge_zero) simp_all
  have s1: "sqrt ((sin y)\<^sup>2) = sin y" using sy by simp
  have "1 - (sin y)\<^sup>2 = (cos y)\<^sup>2"
    using sin_cos_squared_add [of y] by linarith
  then have s2: "sqrt (1 - (sin y)\<^sup>2) = cos y" using cy by simp
  show ?thesis
    unfolding calculateDistance_def Let_def a s1 s2 atan2_sin_cos [OF y0 y1]
    by (simp add: y_def)
qed

lemma calculateDistance_north:
  assumes "0 \<le> d" "d \<le> 180"
  shows "calculateDistance lat lon (lat + d) lon = 6371 * (d * (pi / 180))"
  using calculateDistance_meridian [of "lat + d" lat lon] assms
  by (simp add: toRad_def abs_mult)

lemma calculateDistance_south:
  assumes "0 \<le> d" "d \<le> 180"
  shows "calculateDistance (lat + d) lon lat lon = 6371 * (d * (pi / 180))"
  using calculateDistance_meridian [of lat "lat + d" lon] assms
  by (simp add: toRad_def abs_mult)

lemma calculateDistance_same: "calculateDistance lat lon lat lon = 0"
  by (simp add: calculateDistance_def haversine_a_def toRad_def atan2_def)

subsection \<open>Boundary containment\<close>

text \<open>Points due north of the boundary centre, used to evaluate the test.\<close>

lemma centre_north:
  assumes "0 \<le> d" "d \<le> 180"
  shows "calculateDistance (snd (centerPoint w) + d) (fst (centerPoint w))
           (snd (centerPoint w)) (fst (centerPoint w)) = 6371 * (d * (pi / 180))"
  using assms by (rule calculateDistance_south)

lemma km_as_degrees_le_180:
  assumes "0 \<le> d" "d \<le> 12000"
  shows "d * 180 / (6371 * pi) \<le> 180"
proof -
  have "d * 180 \<le> 180 * (6371 * 2)" using assms by simp
  also have "\<dots> \<le> 180 * (6371 * pi)" using pi_ge_two by simp
  finally show ?thesis by (simp add: field_simps)
qed

text \<open>
  C1: \<open>isWithinBoundary\<close> answers true exactly when the haversine distance from the point
  to the boundary centre is at most the boundary radius; so it is true at the centre
  itself (the radius is not negative) and at a point whose distance is exactly the radius.
\<close>

theorem isWithinBoundary_iff_distance_le:
  "(isWithinBoundary w P \<longleftrightarrow>
      calculateDistance (snd P) (fst P) (snd (centerPoint w)) (fst (centerPoint w))
        \<le> boundaryRadius w)
   \<and> (0 \<le> boundaryRadius w \<longrightarrow> isWithinBoundary w (centerPoint w))
   \<and> (calculateDistance (snd P) (fst P) (snd (centerPoint w)) (fst (centerPoint w))
        = boundaryRadius w \<longrightarrow> isWithinBoundary w P)"
  by (simp add: isWithinBoundary_def calculateDistance_same)

theorem isWithinBoundary_iff_distance_le_witness:
  "0 \<le> boundaryRadius initial_world
   \<and> isWithinBoundary initial_world (centerPoint initial_world)
   \<and> calculateDistance (snd CONFIG_MAP_boundary_center + 2.2 * 180 / (6371 * pi))
        (fst CONFIG_MAP_boundary_center)
        (snd (centerPoint initial_world)) (fst (centerPoint initial_world))
      = boundaryRadius initial_world
   \<and> isWithinBoundary initial_world
        (fst CONFIG_MAP_boundary_center,
         snd CONFIG_MAP_boundary_center + 2.2 * 180 / (6371 * pi))
   \<and> \<not> isWithinBoundary initial_world
        (fst CONFIG_MAP_boundary_center, snd CONFIG_MAP_boundary_center + 1)"
proof -
  have c: "centerPoint initial_world = CONFIG_MAP_boundary_center"
    and r: "boundaryRadius initial_world = 2.2"
    by (simp_all add: initial_world_def CONFIG_MAP_boundary_radius_def)
  have e0: "(0::real) \<le> 2.2 * 180 / (6371 * pi)" by simp
  have e1: "2.2 * 180 / (6371 * pi) \<le> 180"
    by (rule km_as_degrees_le_180) simp_all
  have edge: "calculateDistance (snd CONFIG_MAP_boundary_center + 2.2 * 180 / (6371 * pi))
        (fst CONFIG_MAP_boundary_center)
        (snd (centerPoint initial_world)) (fst (centerPoint initial_world)) = 2.2"
    using centre_north [OF e0 e1, of initial_world] by (simp add: c)
  have far: "calculateDistance (snd CONFIG_MAP_boundary_center + 1)
        (fst CONFIG_MAP_boundary_center)
        (snd (centerPoint initial_world)) (fst (centerPoint initial_world))
      = 6371 * (pi / 180)"
    using centre_north [of 1 initial_world] by (simp add: c)
  have big: "2.2 < 6371 * (pi / 180)" using pi_ge_two by simp
  show ?thesis
    using isWithinBoundary_iff_distance_le [of initial_world "centerPoint initial_world"]
      isWithinBoundary_iff_distance_le [of initial_world
        "(fst CONFIG_MAP_boundary_center,
          snd CONFIG_MAP_boundary_center + 2.2 * 180 / (6371 * pi))"]
      isWithinBoundary_iff_distance_le [of initial_world
        "(fst CONFIG_MAP_boundary_center, snd CONFIG_MAP_boundary_center + 1)"]
      edge far big
    by (simp add: r)
qed

subsection \<open>When the distance is zero\<close>

text \<open>
  C5, as amended: the distance between equal points is zero. Nothing is said of the
  converse.
\<close>

theorem calculateDistance_equal_points_zero:
  "lat1 = lat2 \<and> lon1 = lon2 \<longrightarrow> calculateDistance lat1 lon1 lat2 lon2 = 0"
  by (simp add: calculateDistance_def haversine_a_def toRad_def atan2_def)

theorem calculateDistance_equal_points_zero_witness:
  "(50.8877::real) = 50.8877 \<and> (5.9791::real) = 5.9791
   \<and> calculateDistance 50.8877 5.9791 50.8877 5.9791 = 0"
  using calculateDistance_equal_points_zero [of "50.8877" "50.8877" "5.9791" "5.9791"]
  by simp

text \<open>
  C5 as first stated fails from right to left: two points of latitude 90 whose
  longitudes differ by 1e-150 degrees are different points at distance zero. Over the
  reals the cosine of the latitude is zero; in double precision the product with the
  squared sine of the longitude difference underflows to zero.
\<close>

theorem calculateDistance_zero_distinct_points:
  "\<not> (calculateDistance 90 0 90 (1 / 10 ^ 150) = 0
        \<longleftrightarrow> ((90::real), (0::real)) = (90, 1 / 10 ^ 150))"
  by (simp add: calculateDistance_def haversine_a_def toRad_def atan2_def)

subsection \<open>Drift guard\<close>

text \<open>
  C7: when the map is not easing, the \<open>moveend\<close> handler asks for the overlay and the
  fly-back exactly when the camera centre is more than 1 km from the boundary centre:
  nothing at 0.99 km, the correction at 1.01 km.
\<close>

theorem on_moveend_corrects_iff_beyond_1km:
  assumes "\<not> isEasing"
  shows "(on_moveend isEasing currentCenter = driftCorrection \<longleftrightarrow>
            calculateDistance (snd currentCenter) (fst currentCenter)
              (snd CONFIG_MAP_boundary_center) (fst CONFIG_MAP_boundary_center) > 1)
         \<and> (on_moveend isEasing currentCenter = [] \<longleftrightarrow>
            \<not> calculateDistance (snd currentCenter) (fst currentCenter)
              (snd CONFIG_MAP_boundary_center) (fst CONFIG_MAP_boundary_center) > 1)
         \<and> (calculateDistance (snd currentCenter) (fst currentCenter)
              (snd CONFIG_MAP_boundary_center) (fst CONFIG_MAP_boundary_center) = 0.99
            \<longrightarrow> on_moveend isEasing currentCenter = [])
         \<and> (calculateDistance (snd currentCenter) (fst currentCenter)
              (snd CONFIG_MAP_boundary_center) (fst CONFIG_MAP_boundary_center) = 1.01
            \<longrightarrow> on_moveend isEasing currentCenter = driftCorrection)"
  using assms by (simp add: on_moveend_def Let_def driftCorrection_def)

theorem on_moveend_corrects_iff_beyond_1km_witness:
  "calculateDistance (snd CONFIG_MAP_boundary_center + 0.99 * 180 / (6371 * pi))
     (fst CONFIG_MAP_boundary_center)
     (snd CONFIG_MAP_boundary_center) (fst CONFIG_MAP_boundary_center) = 0.99
   \<and> on_moveend False
       (fst CONFIG_MAP_boundary_center,
        snd CONFIG_MAP_boundary_center + 0.99 * 180 / (6371 * pi)) = []
   \<and> calculateDistance (snd CONFIG_MAP_boundary_center + 1.01 * 180 / (6371 * pi))
       (fst CONFIG_MAP_boundary_center)
       (snd CONFIG_MAP_boundary_center) (fst CONFIG_MAP_boundary_center) = 1.01
   \<and> on_moveend False
       (fst CONFIG_MAP_boundary_center,
        snd CONFIG_MAP_boundary_center + 1.01 * 180 / (6371 * pi))
     = [CreateOverlay, FlyToDefault CONFIG_MAP_center, FadeOverlay]"
proof -
  have b: "d * 180 / (6371 * pi) \<le> 180" if "0 \<le> d" "d \<le> 2" for d :: real
    using that by (intro km_as_degrees_le_180) simp_all
  have near: "calculateDistance (snd CONFIG_MAP_boundary_center + 0.99 * 180 / (6371 * pi))
     (fst CONFIG_MAP_boundary_center)
     (snd CONFIG_MAP_boundary_center) (fst CONFIG_MAP_boundary_center) = 0.99"
    using calculateDistance_south [of "0.99 * 180 / (6371 * pi)"
        "snd CONFIG_MAP_boundary_center" "fst CONFIG_MAP_boundary_center"]
      b [of "0.99"]
    by simp
  have far: "calculateDistance (snd CONFIG_MAP_boundary_center + 1.01 * 180 / (6371 * pi))
     (fst CONFIG_MAP_boundary_center)
     (snd CONFIG_MAP_boundary_center) (fst CONFIG_MAP_boundary_center) = 1.01"
    using calculateDistance_south [of "1.01 * 180 / (6371 * pi)"
        "snd CONFIG_MAP_boundary_center" "fst CONFIG_MAP_boundary_center"]
      b [of "1.01"]
    by simp
  have nf: "\<not> False" by simp
  show ?thesis
    using on_moveend_corrects_iff_beyond_1km [OF nf, of
        "(fst CONFIG_MAP_boundary_center,
          snd CONFIG_MAP_boundary_center + 0.99 * 180 / (6371 * pi))"]
      on_moveend_corrects_iff_beyond_1km [OF nf, of
        "(fst CONFIG_MAP_boundary_center,
          snd CONFIG_MAP_boundary_center + 1.01 * 180 / (6371 * pi))"]
      near far
    by (simp add: driftCorrection_def)
qed

subsection \<open>Geolocation errors\<close>

text \<open>
  C9: the error handler returns normally, leaves the state as it was and shows one
  notification, whose message is fixed by the error code: three different messages for
  the codes 1, 2 and 3, and the default message, different from the three, for any other
  code.
\<close>

theorem handleGeolocationError_notifies:
  "fst (handleGeolocationError w code) = w
   \<and> snd (handleGeolocationError w code) = [ConsoleError, ShowNotification (errorNotice code)]
   \<and> errorNotice (Some 1) = ''Locatie toegang geweigerd. Schakel het in bij je instellingen.''
   \<and> errorNotice (Some 2) = ''Locatie niet beschikbaar. Controleer je apparaat instellingen.''
   \<and> errorNotice (Some 3) = ''Verzoek verlopen. Probeer opnieuw.''
   \<and> distinct [errorNotice (Some 1), errorNotice (Some 2), errorNotice (Some 3),
        errorMessages_default]
   \<and> (code \<noteq> Some 1 \<and> code \<noteq> Some 2 \<and> code \<noteq> Some 3 \<longrightarrow>
        errorNotice code = errorMessages_default)"
  by (simp add: handleGeolocationError_def errorNotice_def errorMessages_def
      errorMessages_default_def)

theorem handleGeolocationError_notifies_witness:
  "snd (handleGeolocationError initial_world (Some 7))
     = [ConsoleError,
        ShowNotification ''Er is een fout opgetreden bij het ophalen van je locatie.'']
   \<and> snd (handleGeolocationError initial_world None)
     = [ConsoleError,
        ShowNotification ''Er is een fout opgetreden bij het ophalen van je locatie.'']
   \<and> fst (handleGeolocationError initial_world (Some 1)) = initial_world"
  using handleGeolocationError_notifies [of initial_world "Some 7"]
    handleGeolocationError_notifies [of initial_world None]
    handleGeolocationError_notifies [of initial_world "Some 1"]
  by (simp add: errorMessages_default_def)

subsection \<open>Circles\<close>

lemma generateCircle_Suc:
  "generateCircle center radiusInM (Suc n) =
     (let f = (\<lambda>i. circlePoint center
                      (radiusInM / 1000 / (111.32 * cos (snd center * pi / 180)))
                      (radiusInM / 1000 / 110.574)
                      ((real i / real (Suc n)) * (2 * pi)))
      in Some (f 0) # map (\<lambda>i. Some (f i)) [Suc 0..<Suc n] @ [Some (f 0)])"
  unfolding generateCircle_def Let_def
  by (simp add: upt_conv_Cons comp_def del: upt_Suc)

lemma generateCircle_closed:
  assumes "0 < pointCount"
  shows "length (generateCircle center radiusInM pointCount) = pointCount + 1"
    and "hd (generateCircle center radiusInM pointCount)
           = last (generateCircle center radiusInM pointCount)"
    and "None \<notin> set (generateCircle center radiusInM pointCount)"
proof -
  obtain n where n: "pointCount = Suc n"
    using assms by (cases pointCount) simp_all
  show "length (generateCircle center radiusInM pointCount) = pointCount + 1"
    by (simp add: generateCircle_def Let_def)
  show "hd (generateCircle center radiusInM pointCount)
           = last (generateCircle center radiusInM pointCount)"
    unfolding n generateCircle_Suc Let_def by simp
  show "None \<notin> set (generateCircle center radiusInM pointCount)"
    unfolding n generateCircle_Suc Let_def by auto
qed

lemma createBoundaryCircle_closed:
  "length (createBoundaryCircle w) = 65"
  "hd (createBoundaryCircle w) = last (createBoundaryCircle w)"
proof -
  show "length (createBoundaryCircle w) = 65"
    by (simp add: createBoundaryCircle_def Let_def)
  have ne: "[0..<65] \<noteq> []" by simp
  have l: "last [0..<65] = 64"
    using last_upt [of 0 65] by simp
  have h: "hd [0..<65] = 0"
    using hd_upt [of 0 65] by simp
  show "hd (createBoundaryCircle w) = last (createBoundaryCircle w)"
    unfolding createBoundaryCircle_def Let_def
    by (simp only: hd_map [OF ne] last_map [OF ne] l h)
       (simp add: circlePoint_def)
qed

text \<open>
  C6: for a positive radius and a positive point count N, \<open>generateCircle\<close> returns N + 1
  points, all defined, and the last is the first again; the search-radius circle, drawn
  with N = 64, and the boundary circle both have 65 points and are closed.
\<close>

theorem circle_is_closed_ring:
  assumes "0 < R" and "0 < N"
  shows "length (generateCircle C R N) = N + 1
         \<and> hd (generateCircle C R N) = last (generateCircle C R N)
         \<and> None \<notin> set (generateCircle C R N)
         \<and> length (searchRadiusCircle w C) = 65
         \<and> hd (searchRadiusCircle w C) = last (searchRadiusCircle w C)
         \<and> length (createBoundaryCircle w) = 65
         \<and> hd (createBoundaryCircle w) = last (createBoundaryCircle w)"
  using generateCircle_closed [OF assms(2), of C R]
    generateCircle_closed [of 64 C "radiusInMeters w"]
    createBoundaryCircle_closed [of w]
  by (simp add: searchRadiusCircle_def)

theorem circle_is_closed_ring_witness:
  "(0::real) < 25 \<and> (0::nat) < 4
   \<and> generateCircle (0, 0) 25 4
       = [Some (25 / 111320, 0), Some (0, 25 / 110574), Some (- (25 / 111320), 0),
          Some (0, - (25 / 110574)), Some (25 / 111320, 0)]
   \<and> length (createBoundaryCircle initial_world) = 65
   \<and> hd (createBoundaryCircle initial_world) = last (createBoundaryCircle initial_world)"
proof -
  have r: "(0::real) < 25" and n: "(0::nat) < 4" by simp_all
  have q: "[0..<4] = [0, 1, 2, 3]" by (simp add: upt_rec)
  have c3: "cos (pi * 3 / 2) = 0" using cos_3over2_pi by (simp add: mult.commute)
  have s3: "sin (pi * 3 / 2) = - 1" using sin_3over2_pi by (simp add: mult.commute)
  have g: "generateCircle (0, 0) 25 4
       = [Some (25 / 111320, 0), Some (0, 25 / 110574), Some (- (25 / 111320), 0),
          Some (0, - (25 / 110574)), Some (25 / 111320, 0)]"
    unfolding generateCircle_def Let_def q
    by (simp add: circlePoint_def c3 s3)
  show ?thesis
    using circle_is_closed_ring [OF r n, of "(0, 0)" initial_world] g by simp
qed

subsection \<open>Distance markers\<close>

lemma fold_removeMarker:
  "fold (\<lambda>marker. removeMarker (fst marker)) ds ms
     = filter (\<lambda>km. fst km \<notin> fst ` set ds) ms"
proof (induction ds arbitrary: ms)
  case Nil
  show ?case by simp
next
  case (Cons d ds)
  show ?case
    unfolding fold_Cons comp_def Cons.IH
    by (auto simp: removeMarker_def intro: filter_cong)
qed

lemma clearDistanceMarkers_simps:
  "distanceMarkers (clearDistanceMarkers w) = []"
  "mapMarkers (clearDistanceMarkers w)
     = filter (\<lambda>km. fst km \<notin> fst ` set (distanceMarkers w)) (mapMarkers w)"
  "nextMarker (clearDistanceMarkers w) = nextMarker w"
  "radiusInMeters (clearDistanceMarkers w) = radiusInMeters w"
  "mapLocations_features (clearDistanceMarkers w) = mapLocations_features w"
  "isPopupOpen (clearDistanceMarkers w) = isPopupOpen w"
  "isFirstLocation (clearDistanceMarkers w) = isFirstLocation w"
  "isTracking (clearDistanceMarkers w) = isTracking w"
  "centerPoint (clearDistanceMarkers w) = centerPoint w"
  "boundaryRadius (clearDistanceMarkers w) = boundaryRadius w"
  by (simp_all add: clearDistanceMarkers_def fold_removeMarker)

lemma addDistanceMarkers_keeps:
  "radiusInMeters (addDistanceMarkers p fs w) = radiusInMeters w"
  "mapLocations_features (addDistanceMarkers p fs w) = mapLocations_features w"
  "isPopupOpen (addDistanceMarkers p fs w) = isPopupOpen w"
  "isFirstLocation (addDistanceMarkers p fs w) = isFirstLocation w"
  "isTracking (addDistanceMarkers p fs w) = isTracking w"
  "centerPoint (addDistanceMarkers p fs w) = centerPoint w"
  "boundaryRadius (addDistanceMarkers p fs w) = boundaryRadius w"
  by (induction fs arbitrary: w; simp)+

lemma findWithin_Cons:
  "findWithin p (f # fs) r =
     (if featureDistance p f \<le> r then f # findWithin p fs r else findWithin p fs r)"
  by (simp add: findWithin_def featureDistance_def mult.commute)

lemma findWithin_Nil: "findWithin p [] r = []"
  by (simp add: findWithin_def)

lemma upt_plus_Suc: "[n..<Suc (n + k)] = n # [Suc n..<Suc (n + k)]"
  by (simp add: upt_conv_Cons del: upt_Suc)

lemma addDistanceMarkers_nextMarker:
  "nextMarker (addDistanceMarkers p fs w)
     = nextMarker w + length (findWithin p fs (radiusInMeters w))"
  by (induction fs arbitrary: w) (simp_all add: findWithin_Cons findWithin_Nil)

lemma addDistanceMarkers_distanceMarkers:
  "distanceMarkers (addDistanceMarkers p fs w)
     = distanceMarkers w @
       zip [nextMarker w..<nextMarker w + length (findWithin p fs (radiusInMeters w))]
           (map (distanceMarker p) (findWithin p fs (radiusInMeters w)))"
  by (induction fs arbitrary: w)
     (simp_all add: findWithin_Cons findWithin_Nil upt_plus_Suc del: upt_Suc)

lemma addDistanceMarkers_mapMarkers:
  "mapMarkers (addDistanceMarkers p fs w)
     = mapMarkers w @
       zip [nextMarker w..<nextMarker w + length (findWithin p fs (radiusInMeters w))]
           (map (distanceMarker p) (findWithin p fs (radiusInMeters w)))"
  by (induction fs arbitrary: w)
     (simp_all add: findWithin_Cons findWithin_Nil upt_plus_Suc del: upt_Suc)

lemma updateDistanceMarkers_keeps:
  "radiusInMeters (updateDistanceMarkers w p) = radiusInMeters w"
  "mapLocations_features (updateDistanceMarkers w p) = mapLocations_features w"
  "isPopupOpen (updateDistanceMarkers w p) = isPopupOpen w"
  "isFirstLocation (updateDistanceMarkers w p) = isFirstLocation w"
  "isTracking (updateDistanceMarkers w p) = isTracking w"
  "centerPoint (updateDistanceMarkers w p) = centerPoint w"
  "boundaryRadius (updateDistanceMarkers w p) = boundaryRadius w"
  by (simp_all add: updateDistanceMarkers_def addDistanceMarkers_keeps
      clearDistanceMarkers_simps)

lemma updateDistanceMarkers_distanceMarkers:
  "distanceMarkers (updateDistanceMarkers w p)
     = zip [nextMarker w..<
              nextMarker w + length (findWithin p (mapLocations_features w) (radiusInMeters w))]
           (map (distanceMarker p) (findWithin p (mapLocations_features w) (radiusInMeters w)))"
  by (simp add: updateDistanceMarkers_def addDistanceMarkers_distanceMarkers
      clearDistanceMarkers_simps)

lemma updateDistanceMarkers_mapMarkers:
  "mapMarkers (updateDistanceMarkers w p)
     = filter (\<lambda>km. fst km \<notin> fst ` set (distanceMarkers w)) (mapMarkers w) @
       distanceMarkers (updateDistanceMarkers w p)"
  by (simp add: updateDistanceMarkers_def addDistanceMarkers_distanceMarkers
      addDistanceMarkers_mapMarkers clearDistanceMarkers_simps)

lemma updateDistanceMarkers_nextMarker:
  "nextMarker (updateDistanceMarkers w p)
     = nextMarker w + length (findWithin p (mapLocations_features w) (radiusInMeters w))"
  by (simp add: updateDistanceMarkers_def addDistanceMarkers_nextMarker
      clearDistanceMarkers_simps)

lemma updateDistanceMarkers_contents:
  "map snd (distanceMarkers (updateDistanceMarkers w p))
     = map (distanceMarker p) (findWithin p (mapLocations_features w) (radiusInMeters w))"
  by (simp add: updateDistanceMarkers_distanceMarkers)

lemma updateDistanceMarkers_targets:
  "map (\<lambda>marker. target (snd marker)) (distanceMarkers (updateDistanceMarkers w p))
     = findWithin p (mapLocations_features w) (radiusInMeters w)"
proof -
  have "map (\<lambda>marker. target (snd marker)) (distanceMarkers (updateDistanceMarkers w p))
          = map target (map snd (distanceMarkers (updateDistanceMarkers w p)))"
    by (simp add: comp_def)
  also have "\<dots> = findWithin p (mapLocations_features w) (radiusInMeters w)"
    unfolding updateDistanceMarkers_contents
    by (simp add: comp_def distanceMarker_def)
  finally show ?thesis .
qed

lemma markers_ok_initial: "markers_ok initial_world"
  by (simp add: markers_ok_def initial_world_def)

lemma markers_ok_clear:
  assumes "markers_ok w"
  shows "mapMarkers (clearDistanceMarkers w) = []"
  using assms by (simp add: markers_ok_def clearDistanceMarkers_simps)

lemma markers_ok_update:
  assumes "markers_ok w"
  shows "markers_ok (updateDistanceMarkers w p)"
    and "mapMarkers (updateDistanceMarkers w p) = distanceMarkers (updateDistanceMarkers w p)"
proof -
  have e: "filter (\<lambda>km. fst km \<notin> fst ` set (distanceMarkers w)) (mapMarkers w) = []"
    using assms by (simp add: markers_ok_def)
  show m: "mapMarkers (updateDistanceMarkers w p) = distanceMarkers (updateDistanceMarkers w p)"
    by (simp add: updateDistanceMarkers_mapMarkers e)
  have "list_all (\<lambda>marker. fst marker < nextMarker (updateDistanceMarkers w p))
          (distanceMarkers (updateDistanceMarkers w p))"
    unfolding updateDistanceMarkers_nextMarker updateDistanceMarkers_distanceMarkers
    by (auto simp: list_all_iff dest: set_zip_leftD)
  with m show "markers_ok (updateDistanceMarkers w p)"
    by (simp add: markers_ok_def)
qed

subsection \<open>What the handlers keep\<close>

lemma trigger_keeps:
  "mapLocations_features (fst (trigger e w)) = mapLocations_features w"
  "radiusInMeters (fst (trigger e w)) = radiusInMeters w"
  "centerPoint (fst (trigger e w)) = centerPoint w"
  "boundaryRadius (fst (trigger e w)) = boundaryRadius w"
  "isPopupOpen (fst (trigger e w)) = isPopupOpen w"
  by (cases "watchState e";
      simp add: trigger_def on_trackuserlocationstart_def on_trackuserlocationend_def
        clearDistanceMarkers_simps)+


lemma trigger_markers_ok:
  assumes "markers_ok w"
  shows "markers_ok (fst (trigger e w))"
  using assms
  by (cases "watchState e")
     (simp_all add: trigger_def on_trackuserlocationstart_def on_trackuserlocationend_def
        markers_ok_def clearDistanceMarkers_simps)

lemma handleUserLocation_keeps:
  "mapLocations_features (fst (handleUserLocation e w position)) = mapLocations_features w"
  "radiusInMeters (fst (handleUserLocation e w position)) = radiusInMeters w"
  "centerPoint (fst (handleUserLocation e w position)) = centerPoint w"
  "boundaryRadius (fst (handleUserLocation e w position)) = boundaryRadius w"
  "isPopupOpen (fst (handleUserLocation e w position)) = isPopupOpen w"
  by (simp_all add: handleUserLocation_def Let_def split_beta updateDistanceMarkers_keeps
      trigger_keeps)



lemma handleUserLocation_later:
  assumes "isWithinBoundary w (userPositionOf position)" "\<not> isPopupOpen w"
    "\<not> isFirstLocation w"
  shows "handleUserLocation e w position =
           (updateDistanceMarkers w (userPositionOf position),
            updateSearchRadius e w (userPositionOf position)
              @ (if calculateDistance (snd (mapCenter e)) (fst (mapCenter e))
                      (snd (userPositionOf position)) (fst (userPositionOf position)) > 0.05
                 then [EaseToUser (userPositionOf position)] else []))"
  using assms by (simp add: handleUserLocation_def Let_def updateDistanceMarkers_keeps)


lemma handleUserLocation_inside_flag:
  assumes "isWithinBoundary w (userPositionOf position)" "\<not> isFirstLocation w"
  shows "\<not> isFirstLocation (fst (handleUserLocation e w position))"
  using assms by (simp add: handleUserLocation_def Let_def updateDistanceMarkers_keeps)

lemma handleUserLocation_markers_ok:
  assumes "markers_ok w"
  shows "markers_ok (fst (handleUserLocation e w position))"
proof -
  have u: "markers_ok (updateDistanceMarkers w (userPositionOf position))"
    using assms by (rule markers_ok_update)
  then have "markers_ok ((updateDistanceMarkers w (userPositionOf position))
                           \<lparr>isFirstLocation := False\<rparr>)"
    by (simp add: markers_ok_def)
  with u trigger_markers_ok [OF assms, of e] show ?thesis
    by (simp add: handleUserLocation_def Let_def split_beta)
qed

lemma isWithinBoundary_cong:
  assumes "centerPoint w' = centerPoint w" "boundaryRadius w' = boundaryRadius w"
  shows "isWithinBoundary w' p = isWithinBoundary w p"
  using assms by (simp add: isWithinBoundary_def)

lemma dispatch_keeps:
  "mapLocations_features (fst (dispatch w ev)) = mapLocations_features w"
  "centerPoint (fst (dispatch w ev)) = centerPoint w"
  "boundaryRadius (fst (dispatch w ev)) = boundaryRadius w"
  "radiusInMeters (fst (dispatch w ev)) = radiusInMeters w"
  by (cases ev;
      simp add: handleUserLocation_keeps on_trackuserlocationupdate_def
        on_trackuserlocationstart_def on_trackuserlocationend_def
        handleGeolocationError_def clearDistanceMarkers_simps)+

lemma dispatch_markers_ok:
  assumes "markers_ok w"
  shows "markers_ok (fst (dispatch w ev))"
proof (cases ev)
  case (Geolocate e position)
  then show ?thesis using assms by (simp add: handleUserLocation_markers_ok)
next
  case (TrackUserLocationEnd e)
  then show ?thesis
    using assms
    by (simp add: on_trackuserlocationend_def markers_ok_def clearDistanceMarkers_simps)
qed (use assms in \<open>simp_all add: on_trackuserlocationupdate_def on_trackuserlocationstart_def
      handleGeolocationError_def markers_ok_def\<close>)

lemma run_keeps:
  "mapLocations_features (fst (run w evs)) = mapLocations_features w"
  by (induction evs arbitrary: w) (simp_all add: split_beta Let_def dispatch_keeps)

lemma run_markers_ok:
  assumes "markers_ok w"
  shows "markers_ok (fst (run w evs))"
  using assms
  by (induction evs arbitrary: w) (simp_all add: split_beta Let_def dispatch_markers_ok)

subsection \<open>Loading the features\<close>

lemma getGeoData_loop_prefix: "prefix features (getGeoData_loop index childNodes features)"
proof (induction childNodes arbitrary: index features)
  case Nil
  show ?case by simp
next
  case (Cons element rest)
  have step: "prefix features
      (if \<not> list_ex (\<lambda>feat. prop_id feat = Some (locationID element)) features
       then features @ [location_feature index element] else features)"
    by simp
  show ?case
    using prefix_order.trans [OF step Cons.IH] by simp
qed

lemma getARData_loop_eq:
  "getARData_loop index childNodes features =
     features @ map (\<lambda>(i, element). ar_feature i element)
                   (zip [index..<index + length childNodes] childNodes)"
proof (induction childNodes arbitrary: index features)
  case Nil
  show ?case by simp
next
  case (Cons element rest)
  show ?case
    using Cons.IH [of "Suc index" "features @ [ar_feature index element]"]
    by (simp add: upt_plus_Suc del: upt_Suc)
qed

lemma getARData_loop_prefix: "prefix features (getARData_loop index childNodes features)"
  by (simp add: getARData_loop_eq)

lemma getARData_loop_length:
  "length (getARData_loop index childNodes features) = length features + length childNodes"
  by (simp add: getARData_loop_eq)

lemma getARData_loop_ids:
  "filter (\<lambda>i. i \<noteq> None) (map prop_id (getARData_loop index childNodes features))
     = filter (\<lambda>i. i \<noteq> None) (map prop_id features)"
  by (induction childNodes arbitrary: index features) (simp_all add: ar_feature_def)

lemma getGeoData_loop_ids_distinct:
  assumes "distinct (filter (\<lambda>i. i \<noteq> None) (map prop_id features))"
  shows "distinct (filter (\<lambda>i. i \<noteq> None)
           (map prop_id (getGeoData_loop index childNodes features)))"
  using assms
proof (induction childNodes arbitrary: index features)
  case Nil
  then show ?case by simp
next
  case (Cons element rest)
  show ?case
  proof (cases "list_ex (\<lambda>feat. prop_id feat = Some (locationID element)) features")
    case True
    then show ?thesis using Cons.IH [OF Cons.prems] by simp
  next
    case False
    then have new: "Some (locationID element) \<notin> set (map prop_id features)"
      by (auto simp: list_ex_iff)
    have "distinct (filter (\<lambda>i. i \<noteq> None)
            (map prop_id (features @ [location_feature index element])))"
      using Cons.prems new by (simp add: location_feature_def)
    from Cons.IH [OF this] show ?thesis using False by simp
  qed
qed

text \<open>
  C8, as amended: loading only appends (the collection before a load is a prefix of the
  collection after it), the handlers of a session never change the collection, and no two
  features that carry an id share it. The features of the AR list carry no id and are
  all appended, one for each record.
\<close>

theorem features_append_only_ids_distinct:
  "prefix features (getGeoData locationList features)
   \<and> prefix features (getARData arList features)
   \<and> mapLocations_features (fst (run w evs)) = mapLocations_features w
   \<and> distinct (filter (\<lambda>i. i \<noteq> None) (map prop_id (loadData locationList arList)))
   \<and> length (loadData locationList arList)
        = length (getGeoData locationList []) + length arList"
proof -
  have "distinct (filter (\<lambda>i. i \<noteq> None) (map prop_id (loadData locationList arList)))"
    unfolding loadData_def getARData_def getGeoData_def getARData_loop_ids
    by (rule getGeoData_loop_ids_distinct) simp
  then show ?thesis
    by (simp add: getGeoData_def getARData_def loadData_def getGeoData_loop_prefix
        getARData_loop_prefix getARData_loop_length run_keeps)
qed

text \<open>
  C8 as first stated fails on the AR list: the same AR record listed twice gives two
  features, both with the undefined id, which the test \<open>===\<close> of \<open>getGeoData\<close> takes
  for equal.
\<close>

theorem ar_features_share_undefined_id:
  "length (loadData []
          [\<lparr>latitude_ar = 50.8877, longitude_ar = 5.9791, arDisplay = []\<rparr>,
           \<lparr>latitude_ar = 50.8877, longitude_ar = 5.9791, arDisplay = []\<rparr>]) = 2
   \<and> \<not> distinct (map prop_id
       (loadData []
          [\<lparr>latitude_ar = 50.8877, longitude_ar = 5.9791, arDisplay = []\<rparr>,
           \<lparr>latitude_ar = 50.8877, longitude_ar = 5.9791, arDisplay = []\<rparr>]))"
  by (simp add: loadData_def getARData_def getGeoData_def ar_feature_def)

subsection \<open>The proximity query\<close>

text \<open>
  C4: the markers \<open>updateDistanceMarkers\<close> creates are those of \<open>findWithin\<close>. A feature
  gets a marker exactly when its distance to the user, in metres, is at most the radius;
  the markers follow the order of the features; and there is none exactly when no feature
  qualifies.
\<close>

theorem updateDistanceMarkers_is_findWithin:
  "map (\<lambda>marker. target (snd marker)) (distanceMarkers (updateDistanceMarkers w p))
     = findWithin p (mapLocations_features w) (radiusInMeters w)
   \<and> (\<forall>f. f \<in> set (map (\<lambda>marker. target (snd marker))
                    (distanceMarkers (updateDistanceMarkers w p))) \<longleftrightarrow>
            f \<in> set (mapLocations_features w) \<and>
            1000 * calculateDistance (snd p) (fst p)
                     (snd (coordinates f)) (fst (coordinates f)) \<le> radiusInMeters w)
   \<and> subseq (map (\<lambda>marker. target (snd marker)) (distanceMarkers (updateDistanceMarkers w p)))
        (mapLocations_features w)
   \<and> (distanceMarkers (updateDistanceMarkers w p) = [] \<longleftrightarrow>
        (\<forall>f \<in> set (mapLocations_features w).
           \<not> 1000 * calculateDistance (snd p) (fst p)
                 (snd (coordinates f)) (fst (coordinates f)) \<le> radiusInMeters w))"
proof -
  let ?out = "map (\<lambda>marker. target (snd marker)) (distanceMarkers (updateDistanceMarkers w p))"
  let ?near = "\<lambda>f. calculateDistance (snd p) (fst p)
                     (snd (coordinates f)) (fst (coordinates f)) * 1000 \<le> radiusInMeters w"
  have out: "?out = filter ?near (mapLocations_features w)"
    by (simp add: updateDistanceMarkers_targets findWithin_def)
  have e: "distanceMarkers (updateDistanceMarkers w p) = [] \<longleftrightarrow> ?out = []"
    by simp
  have 1: "?out = findWithin p (mapLocations_features w) (radiusInMeters w)"
    by (rule updateDistanceMarkers_targets)
  have 2: "\<forall>f. f \<in> set ?out \<longleftrightarrow>
            f \<in> set (mapLocations_features w) \<and>
            1000 * calculateDistance (snd p) (fst p)
                     (snd (coordinates f)) (fst (coordinates f)) \<le> radiusInMeters w"
    unfolding out by (simp add: mult.commute)
  have 3: "subseq ?out (mapLocations_features w)"
    unfolding out by simp
  have 4: "distanceMarkers (updateDistanceMarkers w p) = [] \<longleftrightarrow>
        (\<forall>f \<in> set (mapLocations_features w).
           \<not> 1000 * calculateDistance (snd p) (fst p)
                 (snd (coordinates f)) (fst (coordinates f)) \<le> radiusInMeters w)"
    unfolding e out by (simp add: filter_empty_conv mult.commute)
  from 1 2 3 4 show ?thesis by blast
qed

subsection \<open>The small town, evaluated\<close>

lemma pi_ge_3: "3 \<le> pi"
proof -
  have "sin (pi / 6) \<le> pi / 6" by (rule sin_x_le_x) simp
  then show ?thesis by (simp add: sin_30)
qed

lemma town_fields:
  "centerPoint town = CONFIG_MAP_boundary_center"
  "boundaryRadius town = 2.2"
  "radiusInMeters town = 25"
  "mapLocations_features town = [centre_feature, north_feature]"
  "isPopupOpen town = False"
  "centerPoint tracking_town = CONFIG_MAP_boundary_center"
  "boundaryRadius tracking_town = 2.2"
  "radiusInMeters tracking_town = 25"
  "mapLocations_features tracking_town = [centre_feature, north_feature]"
  "isPopupOpen tracking_town = False"
  "isFirstLocation tracking_town = False"
  by (simp_all add: town_def tracking_town_def initial_world_def CONFIG_MAP_boundary_radius_def)

lemma markers_ok_town: "markers_ok town" "markers_ok tracking_town"
  by (simp_all add: markers_ok_def town_def tracking_town_def initial_world_def)

lemma distance_fix_north:
  assumes "0 \<le> d" "d \<le> 180"
  shows "calculateDistance (snd (userPositionOf (fix_north d))) (fst (userPositionOf (fix_north d)))
           (snd CONFIG_MAP_boundary_center) (fst CONFIG_MAP_boundary_center)
         = 6371 * (d * (pi / 180))"
    and "calculateDistance (snd CONFIG_MAP_boundary_center) (fst CONFIG_MAP_boundary_center)
           (snd (userPositionOf (fix_north d))) (fst (userPositionOf (fix_north d)))
         = 6371 * (d * (pi / 180))"
  using calculateDistance_south [OF assms] calculateDistance_north [OF assms]
  by (simp_all add: userPositionOf_def fix_north_def)

lemma km_bounds:
  assumes "0 \<le> d"
  shows "6371 * (d * 3 / 180) \<le> 6371 * (d * (pi / 180))"
    and "6371 * (d * (pi / 180)) \<le> 6371 * (d * 4 / 180)"
proof -
  have e: "6371 * (d * (pi / 180)) = 6371 * (d * pi / 180)" by simp
  show "6371 * (d * 3 / 180) \<le> 6371 * (d * (pi / 180))"
    unfolding e using assms pi_ge_3 by (intro mult_left_mono divide_right_mono) simp_all
  show "6371 * (d * (pi / 180)) \<le> 6371 * (d * 4 / 180)"
    unfolding e using assms pi_less_4 by (intro mult_left_mono divide_right_mono) simp_all
qed

lemma fix_north_within:
  assumes "0 \<le> d" "d \<le> 0.01"
  shows "isWithinBoundary tracking_town (userPositionOf (fix_north d))"
    and "isWithinBoundary town (userPositionOf (fix_north d))"
proof -
  have "6371 * (d * (pi / 180)) \<le> 6371 * (d * 4 / 180)"
    using assms(1) by (rule km_bounds)
  also have "\<dots> \<le> 2.2" using assms by simp
  finally have le: "6371 * (d * (pi / 180)) \<le> 2.2" .
  have "d \<le> 180" using assms by simp
  note eq = distance_fix_north(1) [OF assms(1) this]
  show "isWithinBoundary tracking_town (userPositionOf (fix_north d))"
    unfolding isWithinBoundary_def town_fields eq by (rule le)
  show "isWithinBoundary town (userPositionOf (fix_north d))"
    unfolding isWithinBoundary_def town_fields eq by (rule le)
qed

lemma fix_north_1_outside:
  "\<not> isWithinBoundary tracking_town (userPositionOf (fix_north 1))"
proof -
  have "2.2 < 6371 * (1 * 3 / 180 :: real)" by simp
  also have "\<dots> \<le> 6371 * (1 * (pi / 180))" by (rule km_bounds) simp
  finally have gt: "\<not> 6371 * (1 * (pi / 180)) \<le> 2.2" by simp
  have eq: "calculateDistance (snd (userPositionOf (fix_north 1)))
              (fst (userPositionOf (fix_north 1)))
              (snd CONFIG_MAP_boundary_center) (fst CONFIG_MAP_boundary_center)
            = 6371 * (1 * (pi / 180))"
    by (rule distance_fix_north) simp_all
  show ?thesis
    unfolding isWithinBoundary_def town_fields eq by (rule gt)
qed

lemma town_findWithin:
  "findWithin CONFIG_MAP_boundary_center [centre_feature, north_feature] 25 = [centre_feature]"
proof -
  have "25 < 6371 * (1 * 3 / 180 :: real) * 1000" by simp
  also have "\<dots> \<le> 6371 * (1 * (pi / 180)) * 1000"
    using km_bounds(1) [of 1] by simp
  finally have far: "\<not> 6371 * (1 * (pi / 180)) * 1000 \<le> 25" by simp
  have d: "calculateDistance (snd CONFIG_MAP_boundary_center) (fst CONFIG_MAP_boundary_center)
             (snd CONFIG_MAP_boundary_center + 1) (fst CONFIG_MAP_boundary_center)
           = 6371 * (1 * (pi / 180))"
    by (rule calculateDistance_north) simp_all
  have c: "coordinates centre_feature = CONFIG_MAP_boundary_center"
    and n: "coordinates north_feature
              = (fst CONFIG_MAP_boundary_center, snd CONFIG_MAP_boundary_center + 1)"
    by (simp_all add: centre_feature_def north_feature_def)
  show ?thesis
    unfolding findWithin_def filter.simps c n fst_conv snd_conv calculateDistance_same d
    using far by simp
qed

subsection \<open>Witnesses in the small town\<close>

theorem updateDistanceMarkers_is_findWithin_witness:
  "map (\<lambda>marker. target (snd marker))
     (distanceMarkers (updateDistanceMarkers town CONFIG_MAP_boundary_center))
     = [centre_feature]
   \<and> centre_feature \<in> set (mapLocations_features town)
   \<and> 1000 * calculateDistance (snd CONFIG_MAP_boundary_center) (fst CONFIG_MAP_boundary_center)
        (snd (coordinates centre_feature)) (fst (coordinates centre_feature))
      \<le> radiusInMeters town
   \<and> north_feature \<in> set (mapLocations_features town)
   \<and> \<not> 1000 * calculateDistance (snd CONFIG_MAP_boundary_center)
          (fst CONFIG_MAP_boundary_center)
          (snd (coordinates north_feature)) (fst (coordinates north_feature))
        \<le> radiusInMeters town"
proof -
  let ?out = "map (\<lambda>marker. target (snd marker))
     (distanceMarkers (updateDistanceMarkers town CONFIG_MAP_boundary_center))"
  note t = updateDistanceMarkers_is_findWithin [of town CONFIG_MAP_boundary_center]
  have out: "?out = [centre_feature]"
    using t by (simp add: town_fields town_findWithin)
  have ne: "north_feature \<noteq> centre_feature"
    by (simp add: north_feature_def centre_feature_def)
  have c: "centre_feature \<in> set ?out" and n: "north_feature \<notin> set ?out"
    using ne by (simp_all add: out)
  have mem: "centre_feature \<in> set (mapLocations_features town)"
    "north_feature \<in> set (mapLocations_features town)"
    by (simp_all add: town_fields)
  from t have iff: "\<And>f. f \<in> set ?out \<longleftrightarrow>
            f \<in> set (mapLocations_features town) \<and>
            1000 * calculateDistance (snd CONFIG_MAP_boundary_center)
                     (fst CONFIG_MAP_boundary_center)
                     (snd (coordinates f)) (fst (coordinates f)) \<le> radiusInMeters town"
    by blast
  show ?thesis
    using out mem iff [of centre_feature] iff [of north_feature] c n by blast
qed

theorem features_append_only_ids_distinct_witness:
  "map prop_id
     (loadData
        [\<lparr>locationID = ''a'', locationLat = 50.88, locationLong = 5.97, locationDisplay = []\<rparr>,
         \<lparr>locationID = ''a'', locationLat = 50.89, locationLong = 5.98, locationDisplay = []\<rparr>,
         \<lparr>locationID = ''b'', locationLat = 50.89, locationLong = 5.98, locationDisplay = []\<rparr>]
        [\<lparr>latitude_ar = 50.8877, longitude_ar = 5.9791, arDisplay = []\<rparr>])
     = [Some ''a'', Some ''b'', None]
   \<and> distinct (filter (\<lambda>i. i \<noteq> None) (map prop_id
       (loadData
        [\<lparr>locationID = ''a'', locationLat = 50.88, locationLong = 5.97, locationDisplay = []\<rparr>,
         \<lparr>locationID = ''a'', locationLat = 50.89, locationLong = 5.98, locationDisplay = []\<rparr>,
         \<lparr>locationID = ''b'', locationLat = 50.89, locationLong = 5.98, locationDisplay = []\<rparr>]
        [\<lparr>latitude_ar = 50.8877, longitude_ar = 5.9791, arDisplay = []\<rparr>])))"
proof -
  have "map prop_id
     (loadData
        [\<lparr>locationID = ''a'', locationLat = 50.88, locationLong = 5.97, locationDisplay = []\<rparr>,
         \<lparr>locationID = ''a'', locationLat = 50.89, locationLong = 5.98, locationDisplay = []\<rparr>,
         \<lparr>locationID = ''b'', locationLat = 50.89, locationLong = 5.98, locationDisplay = []\<rparr>]
        [\<lparr>latitude_ar = 50.8877, longitude_ar = 5.9791, arDisplay = []\<rparr>])
     = [Some ''a'', Some ''b'', None]"
    by (simp add: loadData_def getARData_def getGeoData_def ar_feature_def
        location_feature_def)
  then show ?thesis
    using features_append_only_ids_distinct [of "[]"
        "[\<lparr>locationID = ''a'', locationLat = 50.88, locationLong = 5.97, locationDisplay = []\<rparr>,
         \<lparr>locationID = ''a'', locationLat = 50.89, locationLong = 5.98, locationDisplay = []\<rparr>,
         \<lparr>locationID = ''b'', locationLat = 50.89, locationLong = 5.98, locationDisplay = []\<rparr>]"
        "[\<lparr>latitude_ar = 50.8877, longitude_ar = 5.9791, arDisplay = []\<rparr>]"
        town "[]"]
    by blast
qed

subsection \<open>Markers do not pile up\<close>

lemma updateDistanceMarkers_rendered:
  assumes "markers_ok w"
  shows "renderedMarkers (updateDistanceMarkers w p)
           = map (distanceMarker p)
               (findWithin p (mapLocations_features w) (radiusInMeters w))"
  using markers_ok_update(2) [OF assms, of p]
  by (simp add: renderedMarkers_def updateDistanceMarkers_contents)

lemma length_findWithin: "length (findWithin p fs r) \<le> length fs"
  by (simp add: findWithin_def)

lemma updateDistanceMarkers_removes_old:
  assumes "markers_ok w"
  shows "set (distanceMarkers w) \<inter> set (mapMarkers (updateDistanceMarkers w p)) = {}"
proof -
  have old: "\<forall>marker \<in> set (distanceMarkers w). fst marker < nextMarker w"
    using assms by (simp add: markers_ok_def list_all_iff)
  have new: "\<forall>marker \<in> set (mapMarkers (updateDistanceMarkers w p)).
               nextMarker w \<le> fst marker"
    unfolding markers_ok_update(2) [OF assms] updateDistanceMarkers_distanceMarkers
    by (auto dest: set_zip_leftD)
  show ?thesis
    using old new by fastforce
qed

text \<open>
  C10: in a state where the markers on the map are the ones the manager holds,
  \<open>updateDistanceMarkers\<close> takes every earlier marker off the map, and the markers shown
  afterwards are those of the features near the given position, whatever was shown before.
  So a second call with the same position shows the same markers as the first, a call with
  another position shows what that call alone would, and the map never shows more markers
  than there are features.
\<close>

theorem updateDistanceMarkers_idempotent:
  assumes "markers_ok w"
  shows "renderedMarkers (updateDistanceMarkers (updateDistanceMarkers w p) p)
           = renderedMarkers (updateDistanceMarkers w p)
         \<and> renderedMarkers (updateDistanceMarkers (updateDistanceMarkers w p) q)
           = renderedMarkers (updateDistanceMarkers w q)
         \<and> renderedMarkers (updateDistanceMarkers w p)
           = map (distanceMarker p)
               (findWithin p (mapLocations_features w) (radiusInMeters w))
         \<and> length (renderedMarkers (updateDistanceMarkers w p))
           \<le> length (mapLocations_features w)
         \<and> set (distanceMarkers w) \<inter> set (mapMarkers (updateDistanceMarkers w p)) = {}
         \<and> markers_ok (updateDistanceMarkers w p)"
proof -
  have ok: "markers_ok (updateDistanceMarkers w p)"
    using assms by (rule markers_ok_update)
  have r: "renderedMarkers (updateDistanceMarkers w x)
             = map (distanceMarker x)
                 (findWithin x (mapLocations_features w) (radiusInMeters w))" for x
    using assms by (rule updateDistanceMarkers_rendered)
  have r2: "renderedMarkers (updateDistanceMarkers (updateDistanceMarkers w p) x)
             = map (distanceMarker x)
                 (findWithin x (mapLocations_features w) (radiusInMeters w))" for x
    using updateDistanceMarkers_rendered [OF ok, of x]
    by (simp add: updateDistanceMarkers_keeps)
  have l: "length (renderedMarkers (updateDistanceMarkers w p))
             \<le> length (mapLocations_features w)"
    by (simp add: r length_findWithin)
  show ?thesis
    using ok r [of p] r [of q] r2 [of p] r2 [of q] l
      updateDistanceMarkers_removes_old [OF assms, of p]
    by simp
qed

theorem updateDistanceMarkers_idempotent_witness:
  "markers_ok town
   \<and> renderedMarkers (updateDistanceMarkers
        (updateDistanceMarkers town CONFIG_MAP_boundary_center) CONFIG_MAP_boundary_center)
     = [distanceMarker CONFIG_MAP_boundary_center centre_feature]
   \<and> renderedMarkers (updateDistanceMarkers town CONFIG_MAP_boundary_center)
     = [distanceMarker CONFIG_MAP_boundary_center centre_feature]"
  using updateDistanceMarkers_idempotent [OF markers_ok_town(1),
      of CONFIG_MAP_boundary_center CONFIG_MAP_boundary_center]
    markers_ok_town(1)
  by (simp add: town_fields town_findWithin)

subsection \<open>Camera commands of a fix\<close>


lemma toUserCommands_simps [simp]:
  "toUserCommands [] = []"
  "toUserCommands [EaseToUser p] = [EaseToUser p]"
  "toUserCommands [FlyToUser p b] = [FlyToUser p b]"
  by (simp_all add: toUserCommands_def)


lemma filter_ease_updateSearchRadius [simp]:
  "filter isEaseToUser (updateSearchRadius e w p @ cmds) = filter isEaseToUser cmds"
  "filter isFlyToUser (updateSearchRadius e w p @ cmds) = filter isFlyToUser cmds"
  by (simp_all add: updateSearchRadius_def)

lemma EaseToUser_updateSearchRadius [simp]:
  "EaseToUser q \<notin> set (updateSearchRadius e w p)"
  by (simp add: updateSearchRadius_def)

lemma trigger_no_camera:
  "toUserCommands (snd (trigger e w)) = []"
  "filter isFlyToUser (snd (trigger e w)) = []"
  by (cases "watchState e";
      simp add: trigger_def on_trackuserlocationstart_def on_trackuserlocationend_def
        clearSearchRadius_def toUserCommands_def)+

lemma handleUserLocation_no_fly:
  assumes "\<not> isFirstLocation w"
  shows "filter isFlyToUser (snd (handleUserLocation e w position)) = []"
  using assms
  by (simp add: handleUserLocation_def Let_def split_beta updateDistanceMarkers_keeps
      updateSearchRadius_def trigger_no_camera)






subsection \<open>A session in the small town\<close>










subsection \<open>Following the user\<close>

lemma updateSearchRadius_no_camera [simp]:
  "toUserCommands (updateSearchRadius e w p) = []"
  "filter isEaseToUser (updateSearchRadius e w p) = []"
  "filter isFlyToUser (updateSearchRadius e w p) = []"
  by (simp_all add: updateSearchRadius_def toUserCommands_def)

text \<open>
  C3, as amended: inside the boundary, with no popup open and the first fix consumed, a
  fix asks for exactly one \<open>easeTo\<close> towards the user when the camera centre is more
  than 0.05 km from the new position, and for none otherwise. The distance is taken from
  the camera centre, so two consecutive fixes less than 0.05 km apart ask for no
  \<open>easeTo\<close>, and two more than 0.05 km apart for exactly one, when the camera centre is
  at the earlier fix.
\<close>

theorem ease_iff_camera_beyond_50m:
  assumes "isWithinBoundary w (userPositionOf position)"
    and "\<not> isPopupOpen w"
    and "\<not> isFirstLocation w"
  shows "(EaseToUser (userPositionOf position) \<in> set (snd (handleUserLocation e w position))
            \<longleftrightarrow>
          calculateDistance (snd (mapCenter e)) (fst (mapCenter e))
            (snd (userPositionOf position)) (fst (userPositionOf position)) > 0.05)
         \<and> filter isEaseToUser (snd (handleUserLocation e w position))
           = (if calculateDistance (snd (mapCenter e)) (fst (mapCenter e))
                   (snd (userPositionOf position)) (fst (userPositionOf position)) > 0.05
              then [EaseToUser (userPositionOf position)] else [])
         \<and> filter isFlyToUser (snd (handleUserLocation e w position)) = []
         \<and> (mapCenter e = userPositionOf previous \<and>
              calculateDistance (snd (userPositionOf previous)) (fst (userPositionOf previous))
                (snd (userPositionOf position)) (fst (userPositionOf position)) < 0.05
              \<longrightarrow> filter isEaseToUser (snd (handleUserLocation e w position)) = [])
         \<and> (mapCenter e = userPositionOf previous \<and>
              calculateDistance (snd (userPositionOf previous)) (fst (userPositionOf previous))
                (snd (userPositionOf position)) (fst (userPositionOf position)) > 0.05
              \<longrightarrow> filter isEaseToUser (snd (handleUserLocation e w position))
                    = [EaseToUser (userPositionOf position)])"
proof -
  note h = handleUserLocation_later [OF assms, of e]
  have 1: "EaseToUser (userPositionOf position) \<in> set (snd (handleUserLocation e w position))
            \<longleftrightarrow>
          calculateDistance (snd (mapCenter e)) (fst (mapCenter e))
            (snd (userPositionOf position)) (fst (userPositionOf position)) > 0.05"
    unfolding h by simp
  have 2: "filter isEaseToUser (snd (handleUserLocation e w position))
           = (if calculateDistance (snd (mapCenter e)) (fst (mapCenter e))
                   (snd (userPositionOf position)) (fst (userPositionOf position)) > 0.05
              then [EaseToUser (userPositionOf position)] else [])"
    unfolding h by simp
  have 3: "filter isFlyToUser (snd (handleUserLocation e w position)) = []"
    using assms(3) by (rule handleUserLocation_no_fly)
  show ?thesis
    unfolding 2 3 using 1 by auto
qed

theorem ease_iff_camera_beyond_50m_witness:
  "isWithinBoundary tracking_town (userPositionOf (fix_north 0.0005))
   \<and> \<not> isPopupOpen tracking_town \<and> \<not> isFirstLocation tracking_town
   \<and> mapCenter camera_at_centre = userPositionOf (fix_north 0)
   \<and> calculateDistance (snd (userPositionOf (fix_north 0))) (fst (userPositionOf (fix_north 0)))
       (snd (userPositionOf (fix_north 0.0005))) (fst (userPositionOf (fix_north 0.0005)))
      > 0.05
   \<and> filter isEaseToUser
       (snd (handleUserLocation camera_at_centre tracking_town (fix_north 0.0005)))
     = [EaseToUser (userPositionOf (fix_north 0.0005))]
   \<and> calculateDistance (snd (userPositionOf (fix_north 0))) (fst (userPositionOf (fix_north 0)))
       (snd (userPositionOf (fix_north 0.00025))) (fst (userPositionOf (fix_north 0.00025)))
      < 0.05
   \<and> filter isEaseToUser
       (snd (handleUserLocation camera_at_centre tracking_town (fix_north 0.00025)))
     = []"
proof -
  have c0: "userPositionOf (fix_north 0) = CONFIG_MAP_boundary_center"
    by (simp add: userPositionOf_def fix_north_def)
  have m: "mapCenter camera_at_centre = userPositionOf (fix_north 0)"
    by (simp add: c0 camera_at_centre_def)
  have w1: "isWithinBoundary tracking_town (userPositionOf (fix_north 0.0005))"
    by (rule fix_north_within) simp_all
  have w2: "isWithinBoundary tracking_town (userPositionOf (fix_north 0.00025))"
    by (rule fix_north_within) simp_all
  have p: "\<not> isPopupOpen tracking_town" and f: "\<not> isFirstLocation tracking_town"
    by (simp_all add: town_fields)
  have "0.05 < 6371 * (0.0005 * 3 / 180 :: real)" by simp
  also have "\<dots> \<le> 6371 * (0.0005 * (pi / 180))" by (rule km_bounds) simp
  finally have far: "0.05 < 6371 * (0.0005 * (pi / 180))" .
  have "6371 * (0.00025 * (pi / 180)) \<le> 6371 * (0.00025 * 4 / 180)"
    by (rule km_bounds) simp
  also have "\<dots> < 0.05" by simp
  finally have near: "6371 * (0.00025 * (pi / 180)) < 0.05" .
  have d1: "calculateDistance (snd (userPositionOf (fix_north 0)))
              (fst (userPositionOf (fix_north 0)))
              (snd (userPositionOf (fix_north 0.0005))) (fst (userPositionOf (fix_north 0.0005)))
            = 6371 * (0.0005 * (pi / 180))"
    unfolding c0 by (rule distance_fix_north) simp_all
  have d2: "calculateDistance (snd (userPositionOf (fix_north 0)))
              (fst (userPositionOf (fix_north 0)))
              (snd (userPositionOf (fix_north 0.00025)))
              (fst (userPositionOf (fix_north 0.00025)))
            = 6371 * (0.00025 * (pi / 180))"
    unfolding c0 by (rule distance_fix_north) simp_all
  note t1 = ease_iff_camera_beyond_50m [OF w1 p f, of camera_at_centre "fix_north 0"]
  note t2 = ease_iff_camera_beyond_50m [OF w2 p f, of camera_at_centre "fix_north 0"]
  have e1: "filter isEaseToUser
       (snd (handleUserLocation camera_at_centre tracking_town (fix_north 0.0005)))
     = [EaseToUser (userPositionOf (fix_north 0.0005))]"
    using t1 m far unfolding d1 by blast
  have e2: "filter isEaseToUser
       (snd (handleUserLocation camera_at_centre tracking_town (fix_north 0.00025)))
     = []"
    using t2 m near unfolding d2 by blast
  show ?thesis
    unfolding d1 d2 using w1 p f m far near e1 e2 unfolding d1 d2 by blast
qed

text \<open>
  C3 as first stated fails for a user walking north from the camera centre: the fix at
  0.00025 degrees and the fix at 0.0005 degrees are less than 0.05 km apart, the first
  asks for no camera move, and the second, more than 0.05 km from the camera, asks for the
  \<open>easeTo\<close>.
\<close>

theorem close_fixes_still_ease:
  "isWithinBoundary tracking_town (userPositionOf (fix_north 0.00025))
   \<and> \<not> isPopupOpen tracking_town \<and> \<not> isFirstLocation tracking_town
   \<and> toUserCommands
       (snd (handleUserLocation camera_at_centre tracking_town (fix_north 0.00025))) = []
   \<and> isWithinBoundary
       (fst (handleUserLocation camera_at_centre tracking_town (fix_north 0.00025)))
       (userPositionOf (fix_north 0.0005))
   \<and> \<not> isPopupOpen
         (fst (handleUserLocation camera_at_centre tracking_town (fix_north 0.00025)))
   \<and> \<not> isFirstLocation
         (fst (handleUserLocation camera_at_centre tracking_town (fix_north 0.00025)))
   \<and> calculateDistance
       (snd (userPositionOf (fix_north 0.00025))) (fst (userPositionOf (fix_north 0.00025)))
       (snd (userPositionOf (fix_north 0.0005))) (fst (userPositionOf (fix_north 0.0005)))
      < 0.05
   \<and> filter isEaseToUser
       (snd (handleUserLocation camera_at_centre
          (fst (handleUserLocation camera_at_centre tracking_town (fix_north 0.00025)))
          (fix_north 0.0005)))
     = [EaseToUser (userPositionOf (fix_north 0.0005))]"
proof -
  let ?w1 = "fst (handleUserLocation camera_at_centre tracking_town (fix_north 0.00025))"
  have wa: "isWithinBoundary tracking_town (userPositionOf (fix_north 0.00025))"
    by (rule fix_north_within) simp_all
  have wb: "isWithinBoundary tracking_town (userPositionOf (fix_north 0.0005))"
    by (rule fix_north_within) simp_all
  have p: "\<not> isPopupOpen tracking_town" and f: "\<not> isFirstLocation tracking_town"
    by (simp_all add: town_fields)
  have wb1: "isWithinBoundary ?w1 (userPositionOf (fix_north 0.0005))"
    using wb by (simp add: isWithinBoundary_def handleUserLocation_keeps)
  have p1: "\<not> isPopupOpen ?w1"
    using p by (simp add: handleUserLocation_keeps)
  have f1: "\<not> isFirstLocation ?w1"
    using wa f by (rule handleUserLocation_inside_flag)
  have "0.05 < 6371 * (0.0005 * 3 / 180 :: real)" by simp
  also have "\<dots> \<le> 6371 * (0.0005 * (pi / 180))" by (rule km_bounds) simp
  finally have far: "0.05 < 6371 * (0.0005 * (pi / 180))" .
  have "6371 * (0.00025 * (pi / 180)) \<le> 6371 * (0.00025 * 4 / 180)"
    by (rule km_bounds) simp
  also have "\<dots> < 0.05" by simp
  finally have near: "6371 * (0.00025 * (pi / 180)) < 0.05" .
  have da: "calculateDistance (snd (mapCenter camera_at_centre)) (fst (mapCenter camera_at_centre))
              (snd (userPositionOf (fix_north 0.00025)))
              (fst (userPositionOf (fix_north 0.00025)))
            = 6371 * (0.00025 * (pi / 180))"
    using distance_fix_north(2) [of "0.00025"] by (simp add: camera_at_centre_def)
  have db: "calculateDistance (snd (mapCenter camera_at_centre)) (fst (mapCenter camera_at_centre))
              (snd (userPositionOf (fix_north 0.0005)))
              (fst (userPositionOf (fix_north 0.0005)))
            = 6371 * (0.0005 * (pi / 180))"
    using distance_fix_north(2) [of "0.0005"] by (simp add: camera_at_centre_def)
  have dab: "calculateDistance
       (snd (userPositionOf (fix_north 0.00025))) (fst (userPositionOf (fix_north 0.00025)))
       (snd (userPositionOf (fix_north 0.0005))) (fst (userPositionOf (fix_north 0.0005)))
      = 6371 * (0.00025 * (pi / 180))"
    using calculateDistance_meridian [of "snd CONFIG_MAP_boundary_center + 0.0005"
        "snd CONFIG_MAP_boundary_center + 0.00025" "fst CONFIG_MAP_boundary_center"]
    by (simp add: userPositionOf_def fix_north_def toRad_def)
  have first: "toUserCommands
       (snd (handleUserLocation camera_at_centre tracking_town (fix_north 0.00025))) = []"
    unfolding handleUserLocation_later [OF wa p f] snd_conv da
    using near by simp
  have second: "filter isEaseToUser
       (snd (handleUserLocation camera_at_centre ?w1 (fix_north 0.0005)))
     = [EaseToUser (userPositionOf (fix_north 0.0005))]"
    unfolding handleUserLocation_later [OF wb1 p1 f1] snd_conv db
    using far by simp
  show ?thesis
    unfolding dab using wa p f first wb1 p1 f1 near second by blast
qed

end
